theory Spec2Isabelle
  imports Complex_Main "HOL-Library.Multiset"
begin

section \<open>Instances and their statistics (ollama\_client.py, class OllamaInstance)\<close>

text \<open>
  An instance is a mutable Python object.  Its fields become a record; every method
  that mutates the object returns the updated record.  Python integers are \<open>int\<close>,
  the floating-point durations are idealised as \<open>real\<close>.  The only part of the
  \<^verbatim>\<open>threading.Semaphore\<close> the program reads or writes is its counter
  \<^verbatim>\<open>_value\<close>, kept here as the field \<open>semaphore_value\<close>.
\<close>

record ollama_instance =
  url :: string
  active_requests :: int
  total_requests :: int
  failed_requests :: int
  total_processing_time :: real
  last_response_time :: real
  is_available :: bool
  models :: "string list"
  semaphore_value :: int

text \<open>
  \<^verbatim>\<open>OllamaInstance.__init__(url)\<close> followed by the assignment
  \<^verbatim>\<open>instance.semaphore = threading.Semaphore(n)\<close> of \<^verbatim>\<open>OllamaClient.__init__\<close>.
\<close>

definition new_instance :: "string \<Rightarrow> int \<Rightarrow> ollama_instance" where
  "new_instance u n =
     \<lparr>url = u, active_requests = 0, total_requests = 0, failed_requests = 0,
      total_processing_time = 0, last_response_time = 0, is_available = True,
      models = [], semaphore_value = n\<rparr>"

definition update_stats :: "bool \<Rightarrow> real \<Rightarrow> ollama_instance \<Rightarrow> ollama_instance" where
  "update_stats success response_time i =
     (let i1 = i\<lparr>total_requests := total_requests i + 1,
                 last_response_time := response_time,
                 total_processing_time := total_processing_time i + response_time\<rparr>
      in if \<not> success then i1\<lparr>failed_requests := failed_requests i1 + 1\<rparr> else i1)"

definition get_average_response_time :: "ollama_instance \<Rightarrow> real" where
  "get_average_response_time i =
     (if total_requests i > 0 then total_processing_time i / real_of_int (total_requests i)
      else 0)"

definition is_overloaded :: "ollama_instance \<Rightarrow> bool" where
  "is_overloaded i =
     (if real_of_int (active_requests i) \<ge> real_of_int (semaphore_value i) * (8 / 10) then True
      else if total_requests i > 5 \<and> last_response_time i > 10 then True
      else if total_requests i > 5 \<and>
              real_of_int (failed_requests i) / real_of_int (total_requests i) > 3 / 10 then True
      else False)"

definition get_health_score :: "ollama_instance \<Rightarrow> real" where
  "get_health_score i =
     (if \<not> is_available i then 0
      else
        let score = 100;
            score = (if semaphore_value i > 0
                     then score - real_of_int (active_requests i) / real_of_int (semaphore_value i) * 40
                     else score);
            score = (if total_requests i > 0
                     then (let avg_time = get_average_response_time i
                           in if avg_time > 10 then score - min 30 (avg_time / 2) else score)
                     else score);
            score = (if total_requests i > 0
                     then score - real_of_int (failed_requests i) / real_of_int (total_requests i) * 30
                     else score)
        in max 0 score)"

text \<open>
  \<^verbatim>\<open>Semaphore.acquire(timeout=30)\<close> as one thread sees it when no other thread
  releases during the wait: it takes a permit when the counter is positive and times out
  otherwise.  \<^verbatim>\<open>Semaphore.release()\<close> adds one to the counter; a plain
  \<^verbatim>\<open>Semaphore\<close> has no upper bound.
\<close>

definition semaphore_acquire :: "ollama_instance \<Rightarrow> bool \<times> ollama_instance" where
  "semaphore_acquire i =
     (if semaphore_value i > 0 then (True, i\<lparr>semaphore_value := semaphore_value i - 1\<rparr>)
      else (False, i))"

definition semaphore_release :: "ollama_instance \<Rightarrow> ollama_instance" where
  "semaphore_release i = i\<lparr>semaphore_value := semaphore_value i + 1\<rparr>"

section \<open>The client and instance selection (class OllamaClient)\<close>

text \<open>
  The client owns the list of instances.  The candidate lists the selection code builds
  hold references to these objects; a reference is modelled by the position of the
  object in \<open>instances\<close>.
\<close>

record ollama_client =
  instances :: "ollama_instance list"
  max_concurrent_requests :: int
  load_balancing_strategy :: string
  current_instance_index :: nat

text \<open>The constructor, before the first availability probe.\<close>

definition new_client :: "string list \<Rightarrow> ollama_client" where
  "new_client ollama_urls =
     \<lparr>instances = map (\<lambda>u. new_instance u 3) ollama_urls,
      max_concurrent_requests = 3,
      load_balancing_strategy = ''round_robin'',
      current_instance_index = 0\<rparr>"

text \<open>Changing the strategy is the attribute assignment made by the GUI and by
  \<^verbatim>\<open>ImageProcessor.__init__\<close>.\<close>

definition set_load_balancing_strategy :: "string \<Rightarrow> ollama_client \<Rightarrow> ollama_client" where
  "set_load_balancing_strategy s c = c\<lparr>load_balancing_strategy := s\<rparr>"

definition get_available_instances :: "ollama_client \<Rightarrow> nat list" where
  "get_available_instances c =
     filter (\<lambda>k. is_available (instances c ! k)) [0..<length (instances c)]"

fun instances_with_model_loop ::
  "ollama_instance list \<Rightarrow> string \<Rightarrow> nat list \<Rightarrow> nat list \<Rightarrow> nat list" where
  "instances_with_model_loop insts model_name [] acc = acc"
| "instances_with_model_loop insts model_name (k # ks) acc =
     instances_with_model_loop insts model_name ks
       (if models (insts ! k) = [] \<or> model_name \<in> set (models (insts ! k))
        then acc @ [k] else acc)"

definition get_instance_for_model :: "ollama_client \<Rightarrow> string \<Rightarrow> nat list" where
  "get_instance_for_model c model_name =
     (let available_instances = get_available_instances c;
          instances_with_model =
            instances_with_model_loop (instances c) model_name available_instances []
      in if instances_with_model \<noteq> [] then instances_with_model else available_instances)"

text \<open>Python's \<^verbatim>\<open>min(xs, key=f)\<close> on a non-empty list: the first minimal element.\<close>

fun min_by_key :: "('a \<Rightarrow> 'k::linorder) \<Rightarrow> 'a \<Rightarrow> 'a list \<Rightarrow> 'a" where
  "min_by_key f best [] = best"
| "min_by_key f best (x # xs) = min_by_key f (if f x < f best then x else best) xs"

text \<open>
  \<^verbatim>\<open>xs.sort(key=f, reverse=True)\<close>: a stable descending sort, which Python performs
  as reverse, stable ascending sort, reverse.
\<close>

definition sort_key_reverse :: "('a \<Rightarrow> 'k::linorder) \<Rightarrow> 'a list \<Rightarrow> 'a list" where
  "sort_key_reverse f xs = rev (sort_key f (rev xs))"

definition round_robin_pick :: "nat list \<Rightarrow> ollama_client \<Rightarrow> nat \<times> ollama_client" where
  "round_robin_pick instances_to_use c =
     (instances_to_use ! (current_instance_index c mod length instances_to_use),
      c\<lparr>current_instance_index := current_instance_index c + 1\<rparr>)"

text \<open>The candidates that \<^verbatim>\<open>_select_instance\<close> starts from.\<close>

definition candidate_instances :: "string option \<Rightarrow> ollama_client \<Rightarrow> nat list" where
  "candidate_instances model_name c =
     (case model_name of
        None \<Rightarrow> get_available_instances c
      | Some m \<Rightarrow> if m \<noteq> [] then get_instance_for_model c m else get_available_instances c)"

text \<open>The list the strategy chooses from: the non-overloaded candidates, or all of them
  (after a two-second sleep, which changes no state) when every candidate is overloaded.\<close>

definition instances_to_use :: "string option \<Rightarrow> ollama_client \<Rightarrow> nat list" where
  "instances_to_use model_name c =
     (let available_instances = candidate_instances model_name c;
          healthy_instances =
            filter (\<lambda>k. \<not> is_overloaded (instances c ! k)) available_instances
      in if healthy_instances = [] \<and> length available_instances > 0 then available_instances
         else if healthy_instances \<noteq> [] then healthy_instances else available_instances)"

text \<open>
  \<^verbatim>\<open>_select_instance(model_name)\<close>.  The argument \<open>rnd\<close> is the draw of
  \<^verbatim>\<open>random.choice\<close>.  The result is the selected instance (or \<open>None\<close>) and the
  client with its updated round-robin cursor.
\<close>

definition select_instance ::
  "nat \<Rightarrow> string option \<Rightarrow> ollama_client \<Rightarrow> nat option \<times> ollama_client" where
  "select_instance rnd model_name c =
     (if candidate_instances model_name c = [] then (None, c)
      else
        let itu = instances_to_use model_name c;
            insts = instances c;
            strategy = load_balancing_strategy c
        in if strategy = ''round_robin'' then
             (let (k, c') = round_robin_pick itu c in (Some k, c'))
           else if strategy = ''least_busy'' then
             (Some (min_by_key (\<lambda>k. active_requests (insts ! k)) (hd itu) (tl itu)), c)
           else if strategy = ''fastest'' then
             (let instances_with_history = filter (\<lambda>k. total_requests (insts ! k) > 0) itu
              in if instances_with_history \<noteq> [] then
                   (Some (min_by_key (\<lambda>k. get_average_response_time (insts ! k))
                            (hd instances_with_history) (tl instances_with_history)), c)
                 else (let (k, c') = round_robin_pick itu c in (Some k, c')))
           else if strategy = ''health_based'' then
             (let instances_with_scores = map (\<lambda>k. (k, get_health_score (insts ! k))) itu;
                  sorted_scores = sort_key_reverse snd instances_with_scores
              in if sorted_scores \<noteq> [] then (Some (fst (hd sorted_scores)), c)
                 else (let (k, c') = round_robin_pick itu c in (Some k, c')))
           else (Some (itu ! (rnd mod length itu)), c))"

text \<open>\<open>n\<close> consecutive selections; the results are collected in call order.\<close>

fun select_many ::
  "nat \<Rightarrow> string option \<Rightarrow> nat \<Rightarrow> ollama_client \<Rightarrow> nat option list \<times> ollama_client" where
  "select_many rnd model_name 0 c = ([], c)"
| "select_many rnd model_name (Suc n) c =
     (let (r, c1) = select_instance rnd model_name c;
          (rs, c2) = select_many rnd model_name n c1
      in (r # rs, c2))"

section \<open>One inference call with retries (OllamaClient.generate and OllamaClient.chat)\<close>

text \<open>
  What the outside world contributes to one pass through the retry loop: the draw of
  the random strategy, the outcome of \<^verbatim>\<open>requests.post\<close>, and the two clock
  readings (the one taken after the response, and the one taken in the exception
  handler).  \<open>Response code body\<close> is a received response with its status code; \<open>body\<close>
  is the text extracted from the JSON payload, or \<open>None\<close> when decoding it raises.
\<close>

datatype http_result = Response nat "string option" | TransportException

record attempt_env =
  rnd :: nat
  http :: http_result
  response_time :: real
  response_time_exc :: real

text \<open>The inner \<^verbatim>\<open>finally\<close> block.\<close>

definition finally_block :: "ollama_instance \<Rightarrow> ollama_instance" where
  "finally_block i = semaphore_release (i\<lparr>active_requests := active_requests i - 1\<rparr>)"

text \<open>The outer \<^verbatim>\<open>except Exception\<close> handler (its effect on the instance).\<close>

definition except_block :: "real \<Rightarrow> ollama_instance \<Rightarrow> ollama_instance" where
  "except_block rt i =
     (let i1 = update_stats False rt i;
          i2 = i1\<lparr>active_requests := active_requests i1 - 1\<rparr>
      in semaphore_release i2)"

text \<open>Acquiring the admission semaphore and counting the request as active; \<open>None\<close>
  when the acquisition times out.\<close>

definition enter_request :: "ollama_instance \<Rightarrow> ollama_instance option" where
  "enter_request i =
     (case semaphore_acquire i of
        (False, i0) \<Rightarrow> None
      | (True, i1) \<Rightarrow> Some (i1\<lparr>active_requests := active_requests i1 + 1\<rparr>))"

text \<open>
  The body of the \<^verbatim>\<open>while\<close> loop once an instance has been selected.  The result
  is the returned text (\<open>None\<close>: the loop goes on with one more retry counted), whether
  an HTTP request was sent, and the instance afterwards.
\<close>

definition attempt ::
  "attempt_env \<Rightarrow> ollama_instance \<Rightarrow> (string option \<times> bool) \<times> ollama_instance" where
  "attempt e i =
     (case enter_request i of
        None \<Rightarrow> ((None, False), i)
      | Some i2 \<Rightarrow>
          (case http e of
             Response code body \<Rightarrow>
               if code = 200 then
                 (let i3 = update_stats True (response_time e) i2
                  in case body of
                       Some text \<Rightarrow> ((Some text, True), finally_block i3)
                     | None \<Rightarrow>
                         ((None, True), except_block (response_time_exc e) (finally_block i3)))
               else ((None, True), finally_block (update_stats False (response_time e) i2))
           | TransportException \<Rightarrow>
               ((None, True), except_block (response_time_exc e) (finally_block i2))))"

text \<open>
  The retry loop.  Every pass either returns or counts one retry, so the loop is a
  recursion on the number of retries left; \<open>retries\<close> is the source's counter and
  indexes the environment.  The last component records, in order, the instances an HTTP
  request was sent to.
\<close>

fun retry_loop ::
  "(nat \<Rightarrow> attempt_env) \<Rightarrow> string \<Rightarrow> nat \<Rightarrow> nat \<Rightarrow> ollama_client \<Rightarrow> nat list \<Rightarrow>
   string option \<times> ollama_client \<times> nat list" where
  "retry_loop env model 0 retries c posts = (None, c, posts)"
| "retry_loop env model (Suc n) retries c posts =
     (case select_instance (rnd (env retries)) (Some model) c of
        (None, c1) \<Rightarrow> (None, c1, posts)
      | (Some k, c1) \<Rightarrow>
          (case attempt (env retries) (instances c1 ! k) of
             ((res, posted), i') \<Rightarrow>
               let c2 = c1\<lparr>instances := (instances c1)[k := i']\<rparr>;
                   posts' = (if posted then posts @ [k] else posts)
               in (case res of
                     Some text \<Rightarrow> (Some text, c2, posts')
                   | None \<Rightarrow> retry_loop env model n (Suc retries) c2 posts')))"

definition generate ::
  "(nat \<Rightarrow> attempt_env) \<Rightarrow> string \<Rightarrow> int \<Rightarrow> ollama_client \<Rightarrow>
   string option \<times> ollama_client \<times> nat list" where
  "generate env model max_retries c = retry_loop env model (nat max_retries) 0 c []"

text \<open>\<^verbatim>\<open>chat\<close> repeats the loop of \<^verbatim>\<open>generate\<close> line by line; only the
  endpoint and the field read from the response differ.\<close>

definition chat ::
  "(nat \<Rightarrow> attempt_env) \<Rightarrow> string \<Rightarrow> int \<Rightarrow> ollama_client \<Rightarrow>
   string option \<times> ollama_client \<times> nat list" where
  "chat env model max_retries c = retry_loop env model (nat max_retries) 0 c []"

section \<open>The statements of the specification, for comparison\<close>

text \<open>The overload predicate as the specification words it, against a configured
  concurrency limit.\<close>

definition is_overloaded_spec :: "int \<Rightarrow> ollama_instance \<Rightarrow> bool" where
  "is_overloaded_spec concurrency_limit i =
     (real_of_int (active_requests i) \<ge> (8 / 10) * real_of_int concurrency_limit
      \<or> (total_requests i > 5 \<and> last_response_time i > 10)
      \<or> (total_requests i > 5 \<and>
          real_of_int (failed_requests i) / real_of_int (total_requests i) > 3 / 10))"

text \<open>The health score as the specification words it: the latency penalty applies to
  every instance with at least one request.\<close>

definition health_score_spec :: "int \<Rightarrow> ollama_instance \<Rightarrow> real" where
  "health_score_spec concurrency_limit i =
     max 0 (100 - 40 * (real_of_int (active_requests i) / real_of_int concurrency_limit)
              - (if total_requests i > 0 then min 30 (get_average_response_time i / 2) else 0)
              - (if total_requests i > 0
                 then 30 * (real_of_int (failed_requests i) / real_of_int (total_requests i))
                 else 0))"

text \<open>Model-restricted candidates as the specification words them: the available
  instances whose model list contains the model, or all available ones when there is
  none.\<close>

definition instances_serving_spec :: "ollama_client \<Rightarrow> string \<Rightarrow> nat list" where
  "instances_serving_spec c model_id =
     (let available = get_available_instances c;
          advertising = filter (\<lambda>k. model_id \<in> set (models (instances c ! k))) available
      in if advertising \<noteq> [] then advertising else available)"

text \<open>An HTTP request that fails: a status other than 200, or a transport exception.\<close>

definition http_failed :: "http_result \<Rightarrow> bool" where
  "http_failed h = (case h of Response code body \<Rightarrow> code \<noteq> 200 | TransportException \<Rightarrow> True)"

section \<open>Concrete states used below\<close>

text \<open>A fresh instance with limit 3 on which two requests are in flight.\<close>

definition two_in_flight :: ollama_instance where
  "two_in_flight =
     the (enter_request (the (enter_request (new_instance ''http://localhost:11434'' 3))))"

text \<open>An instance that has served one successful request in four seconds.\<close>

definition one_quick_request :: ollama_instance where
  "one_quick_request = update_stats True 4 (new_instance ''http://localhost:11434'' 3)"

text \<open>An instance that has served one failed request in twenty-four seconds.\<close>

definition one_slow_failure :: ollama_instance where
  "one_slow_failure = update_stats False 24 (new_instance ''http://localhost:11434'' 3)"

text \<open>Two available instances: the first advertises the model \<open>llava\<close>, the second has
  an empty model list.\<close>

definition two_instances :: ollama_client where
  "two_instances = (new_client [''http://a:11434'', ''http://b:11434''])
     \<lparr>instances := [(new_instance ''http://a:11434'' 3)\<lparr>models := [''llava'']\<rparr>,
                    new_instance ''http://b:11434'' 3]\<rparr>"

text \<open>Three fresh instances, with the round-robin cursor at 7.\<close>

definition three_instances :: ollama_client where
  "three_instances = (new_client [''http://a:11434'', ''http://b:11434'', ''http://c:11434''])
      \<lparr>current_instance_index := 7\<rparr>"

text \<open>A backend whose connection always breaks, and one that always answers 500.\<close>

definition always_transport_exception :: "nat \<Rightarrow> attempt_env" where
  "always_transport_exception r =
     \<lparr>rnd = 0, http = TransportException, response_time = 1, response_time_exc = 1\<rparr>"

definition always_http_500 :: "nat \<Rightarrow> attempt_env" where
  "always_http_500 r =
     \<lparr>rnd = 0, http = Response 500 None, response_time = 1, response_time_exc = 1\<rparr>"

section \<open>The adaptive batch loop (image\_processor.py, ImageProcessor.process\_directory)\<close>

text \<open>
  The fields of \<^verbatim>\<open>ImageProcessor\<close> that the batch loop reads and writes.  The log, the
  timing fields and the progress percentage are written by the loop but read by no
  decision in it; they are left out.
\<close>

record image_processor =
  batch_size :: int
  pause_between_batches :: real
  force_processing :: bool
  is_processing :: bool
  total_images :: int
  processed_images :: int
  skipped_images :: int
  failed_images :: int
  processing_images :: "string set"

text \<open>The local variables of the \<^verbatim>\<open>while\<close> loop.\<close>

record loop_vars =
  batch_index :: nat
  consecutive_failures :: int
  adaptive_pause :: real
  stats_check_counter :: int

text \<open>
  What a worker reports for one submitted image: \<^verbatim>\<open>process_image\<close> returns
  \<^verbatim>\<open>"SKIPPED"\<close>, a true value or a false value (\<^verbatim>\<open>None\<close>, \<^verbatim>\<open>False\<close>), or
  \<^verbatim>\<open>future.result()\<close> raises.
\<close>

datatype item_outcome = ItemSkipped | ItemProcessed | ItemFailed | ItemRaised

text \<open>
  What the outside world contributes to one pass through the loop: the flags
  \<^verbatim>\<open>should_stop\<close> and \<^verbatim>\<open>paused\<close> as read at the top of the pass, the CPU load
  sampled by \<^verbatim>\<open>psutil.cpu_percent\<close>, the flag \<^verbatim>\<open>paused\<close> as read when an item
  is about to be submitted, and what the worker reports for an item.
\<close>

record iteration_env =
  should_stop :: bool
  paused :: bool
  system_load :: real
  paused_at :: "string \<Rightarrow> bool"
  outcome :: "string \<Rightarrow> item_outcome"

text \<open>\<^verbatim>\<open>_is_in_cache(image_path, force_processing)\<close> of utils.py; \<open>cache\<close> is the set
  of paths that have a cache file.\<close>

definition is_in_cache :: "string set \<Rightarrow> string \<Rightarrow> bool \<Rightarrow> bool" where
  "is_in_cache cache image_path force = (if force then False else image_path \<in> cache)"

text \<open>The submission loop over the batch: an item met while paused is passed over, an
  item already in flight is not submitted again.  The result lists the submitted paths.\<close>

fun submit_batch ::
  "(string \<Rightarrow> bool) \<Rightarrow> string list \<Rightarrow> string set \<Rightarrow> string list \<Rightarrow> string list \<times> string set" where
  "submit_batch pz [] in_flight futures = (futures, in_flight)"
| "submit_batch pz (image_path # rest) in_flight futures =
     (if pz image_path then submit_batch pz rest in_flight futures
      else if image_path \<notin> in_flight
           then submit_batch pz rest (insert image_path in_flight) (futures @ [image_path])
      else submit_batch pz rest in_flight futures)"

text \<open>The loop over the completed futures.  The counters are updated per item; the
  order of completion does not matter for them.\<close>

fun collect_results ::
  "(string \<Rightarrow> item_outcome) \<Rightarrow> string list \<Rightarrow> image_processor \<Rightarrow> int \<Rightarrow> image_processor \<times> int" where
  "collect_results oc [] p batch_failures = (p, batch_failures)"
| "collect_results oc (image_path # rest) p batch_failures =
     (let p1 = p\<lparr>processing_images := processing_images p - {image_path}\<rparr>
      in case oc image_path of
           ItemSkipped \<Rightarrow>
             collect_results oc rest (p1\<lparr>skipped_images := skipped_images p1 + 1\<rparr>) batch_failures
         | ItemProcessed \<Rightarrow>
             collect_results oc rest (p1\<lparr>processed_images := processed_images p1 + 1\<rparr>) batch_failures
         | ItemFailed \<Rightarrow>
             collect_results oc rest (p1\<lparr>failed_images := failed_images p1 + 1\<rparr>) (batch_failures + 1)
         | ItemRaised \<Rightarrow>
             collect_results oc rest (p1\<lparr>failed_images := failed_images p1 + 1\<rparr>) (batch_failures + 1))"

text \<open>The slice \<^verbatim>\<open>image_files[batch_index:batch_index+current_batch_size]\<close>.\<close>

definition current_batch :: "string list \<Rightarrow> image_processor \<Rightarrow> loop_vars \<Rightarrow> string list" where
  "current_batch image_files p v =
     (let current_batch_size = max 1 (batch_size p - consecutive_failures v)
      in take (nat current_batch_size) (drop (batch_index v) image_files))"

text \<open>The paths of the current batch that are handed to a worker.\<close>

definition submitted_items ::
  "string list \<Rightarrow> iteration_env \<Rightarrow> image_processor \<Rightarrow> loop_vars \<Rightarrow> string list" where
  "submitted_items image_files e p v =
     fst (submit_batch (paused_at e) (current_batch image_files p v) (processing_images p) [])"

text \<open>
  One pass through the body of the \<^verbatim>\<open>while\<close> loop.  The boolean is true when the
  pass leaves the loop with \<^verbatim>\<open>break\<close>.
\<close>

definition batch_iteration ::
  "string list \<Rightarrow> iteration_env \<Rightarrow> image_processor \<times> loop_vars \<Rightarrow>
   (image_processor \<times> loop_vars) \<times> bool" where
  "batch_iteration image_files e s =
     (case s of (p, v) \<Rightarrow>
        if should_stop e then ((p, v), True)
        else if paused e then ((p, v), False)
        else
          let batch = current_batch image_files p v;
              v1 = v\<lparr>batch_index := batch_index v + length batch\<rparr>
          in if system_load e > 90 then ((p, v1), False)
             else
               let (futures, in_flight) =
                     submit_batch (paused_at e) batch (processing_images p) [];
                   (p2, batch_failures) =
                     collect_results (outcome e) futures (p\<lparr>processing_images := in_flight\<rparr>) 0;
                   v2 = (if batch_failures > 0
                         then v1\<lparr>consecutive_failures := consecutive_failures v1 + 1,
                                 adaptive_pause := min 60 (adaptive_pause v1 * (3 / 2))\<rparr>
                         else v1\<lparr>consecutive_failures := max 0 (consecutive_failures v1 - 1),
                                 adaptive_pause :=
                                   max (pause_between_batches p) (adaptive_pause v1 * (8 / 10))\<rparr>);
                   v3 = v2\<lparr>stats_check_counter := stats_check_counter v2 + 1\<rparr>
               in ((p2, v3), False))"

text \<open>
  The \<^verbatim>\<open>while batch_index < len(image_files)\<close> loop.  A pass made while paused changes
  nothing, so the loop need not end; it is run against a finite script of passes, and
  \<open>None\<close> means that the script ran out before the loop ended.
\<close>

fun batch_loop ::
  "string list \<Rightarrow> iteration_env list \<Rightarrow> image_processor \<times> loop_vars \<Rightarrow>
   (image_processor \<times> loop_vars) option" where
  "batch_loop image_files [] s =
     (if batch_index (snd s) < length image_files then None else Some s)"
| "batch_loop image_files (e # es) s =
     (if batch_index (snd s) < length image_files
      then (case batch_iteration image_files e s of
              (s', True) \<Rightarrow> Some s'
            | (s', False) \<Rightarrow> batch_loop image_files es s')
      else Some s)"

text \<open>
  \<^verbatim>\<open>process_directory\<close>.  \<open>found\<close> are the image paths collected by the directory
  walk; \<^verbatim>\<open>list(set(image_files))\<close> removes duplicates (in an unspecified order, here
  the order of first occurrence).  The result is the returned boolean and the processor
  after the \<^verbatim>\<open>finally\<close> block.
\<close>

definition process_directory ::
  "string set \<Rightarrow> string list \<Rightarrow> iteration_env list \<Rightarrow> image_processor \<Rightarrow>
   (bool \<times> image_processor) option" where
  "process_directory cache found envs p =
     (if is_processing p then Some (False, p)
      else
        let p1 = p\<lparr>is_processing := True, processed_images := 0, skipped_images := 0,
                   failed_images := 0, processing_images := {}\<rparr>;
            image_files = remdups found;
            p2 = p1\<lparr>total_images := int (length image_files)\<rparr>
        in if total_images p2 = 0
           then Some (True, p2\<lparr>is_processing := False, processing_images := {}\<rparr>)
           else
             let cached_images =
                   filter (\<lambda>image_path. is_in_cache cache image_path (force_processing p2))
                     image_files;
                 p3 = (if cached_images \<noteq> []
                       then p2\<lparr>skipped_images := skipped_images p2 + int (length cached_images)\<rparr>
                       else p2);
                 image_files = (if cached_images \<noteq> []
                                then filter (\<lambda>img. img \<notin> set cached_images) image_files
                                else image_files);
                 v0 = \<lparr>batch_index = 0, consecutive_failures = 0,
                       adaptive_pause = pause_between_batches p3, stats_check_counter = 0\<rparr>
             in case batch_loop image_files envs (p3, v0) of
                  None \<Rightarrow> None
                | Some (p4, v) \<Rightarrow>
                    Some (True, p4\<lparr>is_processing := False, processing_images := {}\<rparr>))"

text \<open>\<^verbatim>\<open>ImageProcessor.__init__\<close> with its default arguments, restricted to the fields
  above.\<close>

definition new_image_processor :: image_processor where
  "new_image_processor =
     \<lparr>batch_size = 5, pause_between_batches = 5, force_processing = False,
      is_processing = False, total_images = 0, processed_images = 0, skipped_images = 0,
      failed_images = 0, processing_images = {}\<rparr>"

text \<open>A worker's report that counts as a failure of the item.\<close>

definition item_failed :: "item_outcome \<Rightarrow> bool" where
  "item_failed oc = (oc = ItemFailed \<or> oc = ItemRaised)"

text \<open>A pass during which the CPU load is 95 percent, one during which it is 20 percent
  and every image is processed, and one during which the image \<open>b.jpg\<close> fails.\<close>

definition busy_pass :: iteration_env where
  "busy_pass = \<lparr>should_stop = False, paused = False, system_load = 95,
                 paused_at = (\<lambda>x. False), outcome = (\<lambda>x. ItemProcessed)\<rparr>"

definition quiet_pass :: iteration_env where
  "quiet_pass = \<lparr>should_stop = False, paused = False, system_load = 20,
                  paused_at = (\<lambda>x. False), outcome = (\<lambda>x. ItemProcessed)\<rparr>"

definition failing_pass :: iteration_env where
  "failing_pass = \<lparr>should_stop = False, paused = False, system_load = 20,
                    paused_at = (\<lambda>x. False),
                    outcome = (\<lambda>x. if x = ''b.jpg'' then ItemFailed else ItemProcessed)\<rparr>"

text \<open>Six images, and loop variables after two failing batches.\<close>

definition six_images :: "string list" where
  "six_images = [''a.jpg'', ''b.jpg'', ''c.jpg'', ''d.jpg'', ''e.jpg'', ''f.jpg'']"

definition after_two_failures :: loop_vars where
  "after_two_failures =
     \<lparr>batch_index = 0, consecutive_failures = 2, adaptive_pause = 50, stats_check_counter = 2\<rparr>"

section \<open>Repairing and reading the model's JSON answer (utils.py)\<close>

text \<open>
  A parsed JSON value, as \<^verbatim>\<open>json.loads\<close> builds it: \<^verbatim>\<open>None\<close>, a boolean, a
  number, a string, a list, or a dictionary (an association list in insertion order).
  A Python string is modelled as a \<open>string\<close>, a list of 8-bit characters.
\<close>

datatype json =
    JNull
  | JBool bool
  | JNumber real
  | JString string
  | JArray "json list"
  | JObject "(string \<times> json) list"

datatype py_exception = JSONDecodeError | TypeError | KeyError | OtherException

text \<open>
  The functions of Python's standard library that \<^verbatim>\<open>clean_and_repair_json\<close> calls
  are not part of the program; they are parameters of the model.  \<open>json_loads\<close> is
  \<^verbatim>\<open>json.loads\<close>, which returns a value or raises (\<^verbatim>\<open>JSONDecodeError\<close>, or another
  exception such as \<^verbatim>\<open>RecursionError\<close> on deeply nested text).  \<open>re_sub\<close> and
  \<open>re_findall\<close> are \<^verbatim>\<open>re.sub\<close> and \<^verbatim>\<open>re.findall\<close> at the call sites below, which
  are named after what the source's comments say they do.
\<close>

datatype sub_pattern =
    Collapse_whitespace
  | Comma_between_braces
  | Comma_between_strings
  | Trailing_comma_in_list
  | Trailing_comma_in_object
  | Comma_after_string_value
  | Comma_after_number_value
  | Comma_after_boolean_value
  | Comma_after_list_value
  | Escape_inner_quotes
  | Lowercase_True
  | Lowercase_False
  | None_to_null
  | Malformed_array

datatype findall_pattern = Subjects_list | Objects_list | Scene_list | Quoted_items

record pylib =
  json_loads :: "string \<Rightarrow> py_exception + json"
  re_sub :: "sub_pattern \<Rightarrow> string \<Rightarrow> string"
  re_findall :: "findall_pattern \<Rightarrow> string \<Rightarrow> string list"

text \<open>\<^verbatim>\<open>str.find(c)\<close> and \<^verbatim>\<open>str.rfind(c)\<close> for a single character: the lowest and
  the highest index of \<open>c\<close>, or \<open>-1\<close>.\<close>

definition str_find :: "char \<Rightarrow> string \<Rightarrow> int" where
  "str_find c s = (if c \<in> set s then int (length (takeWhile (\<lambda>x. x \<noteq> c) s)) else - 1)"

definition str_rfind :: "char \<Rightarrow> string \<Rightarrow> int" where
  "str_rfind c s =
     (if c \<in> set s then int (length s) - 1 - int (length (takeWhile (\<lambda>x. x \<noteq> c) (rev s)))
      else - 1)"

text \<open>The slice \<^verbatim>\<open>s[i:j]\<close> for \<open>0 \<le> i\<close> and \<open>0 \<le> j\<close>.\<close>

definition str_slice :: "string \<Rightarrow> int \<Rightarrow> int \<Rightarrow> string" where
  "str_slice s i j = take (nat (j - i)) (drop (nat i) s)"

text \<open>The minimal result the function falls back to.\<close>

definition minimal_json :: json where
  "minimal_json =
     JObject [(''subjects'', JArray []), (''objects'', JArray []),
              (''scene'', JArray [JString ''Description not available''])]"

text \<open>The eight numbered repair steps, in the order of the source.\<close>

definition basic_repairs :: "pylib \<Rightarrow> string \<Rightarrow> string" where
  "basic_repairs L json_str =
     (let json_str = re_sub L Comma_between_braces json_str;
          json_str = re_sub L Comma_between_strings json_str;
          json_str = re_sub L Trailing_comma_in_list json_str;
          json_str = re_sub L Trailing_comma_in_object json_str;
          json_str = re_sub L Comma_after_string_value json_str;
          json_str = re_sub L Comma_after_number_value json_str;
          json_str = re_sub L Comma_after_boolean_value json_str;
          json_str = re_sub L Comma_after_list_value json_str;
          json_str = re_sub L Escape_inner_quotes json_str;
          json_str = re_sub L Lowercase_True json_str;
          json_str = re_sub L Lowercase_False json_str;
          json_str = re_sub L None_to_null json_str;
          json_str = re_sub L Malformed_array json_str
      in json_str)"

text \<open>The last resort: the three lists are searched for with regular expressions.\<close>

definition manual_extraction :: "pylib \<Rightarrow> string \<Rightarrow> json" where
  "manual_extraction L json_str =
     (let subjects = re_findall L Subjects_list json_str;
          objects = re_findall L Objects_list json_str;
          scene = re_findall L Scene_list json_str;
          result_subjects =
            (if subjects \<noteq> [] then re_findall L Quoted_items (hd subjects) else []);
          result_objects =
            (if objects \<noteq> [] then re_findall L Quoted_items (hd objects) else []);
          result_scene =
            (if scene \<noteq> [] \<and> re_findall L Quoted_items (hd scene) \<noteq> []
             then re_findall L Quoted_items (hd scene)
             else [''Description not available''])
      in JObject [(''subjects'', JArray (map JString result_subjects)),
                  (''objects'', JArray (map JString result_objects)),
                  (''scene'', JArray (map JString result_scene))])"

text \<open>The text between the first opening and the last closing brace, when there is one.\<close>

definition json_span :: "string \<Rightarrow> string option" where
  "json_span json_str =
     (let start_idx = str_find (CHR ''{'') json_str;
          end_idx = str_rfind (CHR ''}'') json_str
      in if start_idx \<noteq> - 1 \<and> end_idx \<noteq> - 1 \<and> end_idx > start_idx
         then Some (str_slice json_str start_idx (end_idx + 1))
         else None)"

text \<open>
  The body of the outer \<^verbatim>\<open>try\<close> of \<^verbatim>\<open>clean_and_repair_json\<close>.  The handlers
  inside it catch \<^verbatim>\<open>JSONDecodeError\<close> only; any other exception leaves the body.
\<close>

definition clean_and_repair_json_body :: "pylib \<Rightarrow> string \<Rightarrow> py_exception + json" where
  "clean_and_repair_json_body L json_str =
     (case json_span json_str of
        None \<Rightarrow> Inr minimal_json
      | Some braced \<Rightarrow>
          let json_str = re_sub L Collapse_whitespace braced
          in (case json_loads L json_str of
                Inr parsed \<Rightarrow> Inr parsed
              | Inl e \<Rightarrow>
                  if e = JSONDecodeError then
                    (let json_str = basic_repairs L json_str
                     in case json_loads L json_str of
                          Inr parsed \<Rightarrow> Inr parsed
                        | Inl e2 \<Rightarrow>
                            if e2 = JSONDecodeError then Inr (manual_extraction L json_str)
                            else Inl e2)
                  else Inl e))"

text \<open>\<^verbatim>\<open>clean_and_repair_json\<close>: the body under \<^verbatim>\<open>except Exception\<close>.  \<open>Inl\<close> would
  be an exception that reaches the caller.\<close>

definition clean_and_repair_json :: "pylib \<Rightarrow> string \<Rightarrow> py_exception + json" where
  "clean_and_repair_json L json_str =
     (case clean_and_repair_json_body L json_str of
        Inr result \<Rightarrow> Inr result
      | Inl e \<Rightarrow> Inr minimal_json)"

text \<open>Python's \<^verbatim>\<open>str.isspace\<close> and \<^verbatim>\<open>str.isdigit\<close> on the characters below 256, and
  \<^verbatim>\<open>str.strip()\<close>.\<close>

definition is_space :: "char \<Rightarrow> bool" where
  "is_space c =
     (let n = (of_char c :: nat)
      in (9 \<le> n \<and> n \<le> 13) \<or> (28 \<le> n \<and> n \<le> 32) \<or> n = 133 \<or> n = 160)"

definition is_digit :: "char \<Rightarrow> bool" where
  "is_digit c =
     (let n = (of_char c :: nat)
      in (48 \<le> n \<and> n \<le> 57) \<or> n = 178 \<or> n = 179 \<or> n = 185)"

definition strip :: "string \<Rightarrow> string" where
  "strip s = rev (dropWhile is_space (rev (dropWhile is_space s)))"

text \<open>\<^verbatim>\<open>sub in s\<close> for two strings.\<close>

fun is_substring :: "string \<Rightarrow> string \<Rightarrow> bool" where
  "is_substring sub [] = (sub = [])"
| "is_substring sub (c # cs) = (take (length sub) (c # cs) = sub \<or> is_substring sub cs)"

text \<open>\<^verbatim>\<open>key in data\<close> and \<^verbatim>\<open>data[key]\<close> for a string key and an arbitrary parsed
  value: membership is defined on dictionaries, lists and strings; indexing with a string
  only on dictionaries.\<close>

definition py_in :: "string \<Rightarrow> json \<Rightarrow> py_exception + bool" where
  "py_in key data =
     (case data of
        JObject kvs \<Rightarrow> Inr (map_of kvs key \<noteq> None)
      | JArray xs \<Rightarrow> Inr (JString key \<in> set xs)
      | JString s \<Rightarrow> Inr (is_substring key s)
      | JNull \<Rightarrow> Inl TypeError
      | JBool b \<Rightarrow> Inl TypeError
      | JNumber r \<Rightarrow> Inl TypeError)"

definition py_getitem :: "json \<Rightarrow> string \<Rightarrow> py_exception + json" where
  "py_getitem data key =
     (case data of
        JObject kvs \<Rightarrow> (case map_of kvs key of Some v \<Rightarrow> Inr v | None \<Rightarrow> Inl KeyError)
      | JArray xs \<Rightarrow> Inl TypeError
      | JString s \<Rightarrow> Inl TypeError
      | JNull \<Rightarrow> Inl TypeError
      | JBool b \<Rightarrow> Inl TypeError
      | JNumber r \<Rightarrow> Inl TypeError)"

text \<open>Python's truth value of a parsed value, and whether \<^verbatim>\<open>x[:50]\<close> is defined.\<close>

definition truthy :: "json \<Rightarrow> bool" where
  "truthy x =
     (case x of
        JNull \<Rightarrow> False
      | JBool b \<Rightarrow> b
      | JNumber r \<Rightarrow> r \<noteq> 0
      | JString s \<Rightarrow> s \<noteq> []
      | JArray xs \<Rightarrow> xs \<noteq> []
      | JObject kvs \<Rightarrow> kvs \<noteq> [])"

definition sliceable :: "json \<Rightarrow> bool" where
  "sliceable x = (case x of JString s \<Rightarrow> True | JArray xs \<Rightarrow> True | _ \<Rightarrow> False)"

text \<open>The keywords one item of a category list contributes: a string itself, a
  dictionary one \<open>key:value\<close> per string value.\<close>

definition dict_item_keywords :: "(string \<times> json) list \<Rightarrow> string list" where
  "dict_item_keywords kvs =
     concat (map (\<lambda>(key, value). case value of JString v \<Rightarrow> [key @ '':'' @ v] | _ \<Rightarrow> []) kvs)"

definition item_keywords :: "json \<Rightarrow> string list" where
  "item_keywords item =
     (case item of
        JString s \<Rightarrow> [s]
      | JObject kvs \<Rightarrow> dict_item_keywords kvs
      | _ \<Rightarrow> [])"

definition categories :: "string list" where
  "categories = [''subjects'', ''objects'', ''lighting'', ''colors'', ''composition'',
                 ''mood'', ''technical'', ''people'', ''nudity'']"

definition category_keywords :: "json \<Rightarrow> string \<Rightarrow> py_exception + string list" where
  "category_keywords data category =
     (case py_in category data of
        Inl e \<Rightarrow> Inl e
      | Inr False \<Rightarrow> Inr []
      | Inr True \<Rightarrow>
          (case py_getitem data category of
             Inl e \<Rightarrow> Inl e
           | Inr (JArray items) \<Rightarrow> Inr (concat (map item_keywords items))
           | Inr other \<Rightarrow> Inr []))"

fun collect_keywords ::
  "json \<Rightarrow> string list \<Rightarrow> string list \<Rightarrow> py_exception + string list" where
  "collect_keywords data [] keywords = Inr keywords"
| "collect_keywords data (category # rest) keywords =
     (case category_keywords data category of
        Inl e \<Rightarrow> Inl e
      | Inr kws \<Rightarrow> collect_keywords data rest (keywords @ kws))"

definition scene_of :: "json \<Rightarrow> py_exception + json option" where
  "scene_of data =
     (case py_in ''scene'' data of
        Inl e \<Rightarrow> Inl e
      | Inr False \<Rightarrow> Inr None
      | Inr True \<Rightarrow>
          (case py_getitem data ''scene'' of
             Inl e \<Rightarrow> Inl e
           | Inr (JArray xs) \<Rightarrow> (if xs \<noteq> [] then Inr (Some (hd xs)) else Inr None)
           | Inr (JString s) \<Rightarrow> Inr (Some (JString s))
           | Inr other \<Rightarrow> Inr None))"

text \<open>The cleaning loop: strip, drop what is empty, remove a leading \<open>1\<close> that is
  followed by a non-digit.\<close>

definition clean_keyword :: "string \<Rightarrow> string list" where
  "clean_keyword kw =
     (let kw = strip kw
      in if kw \<noteq> []
         then [if hd kw = CHR ''1'' \<and> length kw > 1 \<and> \<not> is_digit (kw ! 1) then tl kw else kw]
         else [])"

definition clean_keywords :: "string list \<Rightarrow> string list" where
  "clean_keywords keywords = concat (map clean_keyword keywords)"

text \<open>
  The body of the \<^verbatim>\<open>try\<close> of \<^verbatim>\<open>extract_keywords_from_json\<close>.  The last log
  line slices the scene description when it is true, which raises for a number, a
  boolean or a dictionary.  \<^verbatim>\<open>list(set(cleaned_keywords))\<close> removes duplicates, in an
  unspecified order; here the order of first occurrence.
\<close>

definition extract_keywords_body ::
  "pylib \<Rightarrow> json \<Rightarrow> py_exception + (string list \<times> json option)" where
  "extract_keywords_body L json_data =
     (case (case json_data of JString s \<Rightarrow> clean_and_repair_json L s | other \<Rightarrow> Inr other) of
        Inl e \<Rightarrow> Inl e
      | Inr data \<Rightarrow>
          (case collect_keywords data categories [] of
             Inl e \<Rightarrow> Inl e
           | Inr keywords \<Rightarrow>
               (case scene_of data of
                  Inl e \<Rightarrow> Inl e
                | Inr scene_description \<Rightarrow>
                    let cleaned_keywords = clean_keywords keywords
                    in (case scene_description of
                          None \<Rightarrow> Inr (remdups cleaned_keywords, None)
                        | Some d \<Rightarrow>
                            if truthy d \<and> \<not> sliceable d then Inl TypeError
                            else Inr (remdups cleaned_keywords, Some d)))))"

definition extract_keywords_from_json :: "pylib \<Rightarrow> json \<Rightarrow> string list \<times> json option" where
  "extract_keywords_from_json L json_data =
     (case extract_keywords_body L json_data of
        Inr result \<Rightarrow> result
      | Inl e \<Rightarrow> ([], None))"

text \<open>A library whose parser rejects every text and whose patterns never match, and
  the parsed answer \<^verbatim>\<open>{"subjects": ["1 cat", "dog ", "dog"]}\<close>.\<close>

definition rejecting_lib :: pylib where
  "rejecting_lib =
     \<lparr>json_loads = (\<lambda>s. Inl JSONDecodeError), re_sub = (\<lambda>p s. s), re_findall = (\<lambda>p s. [])\<rparr>"

definition one_cat_answer :: json where
  "one_cat_answer = JObject [(''subjects'', JArray [JString ''1 cat'', JString ''dog '', JString ''dog''])]"

text \<open>
  The words of the specification about the outcome of the repair.  A result is a
  keyword record when it is a dictionary with the keys \<open>subjects\<close>, \<open>objects\<close> and
  \<open>scene\<close>, each a list of strings, the scene list not empty.  A text holds no
  recoverable JSON when it has no braced part, or when neither the braced part nor its
  repaired form parses and the search finds no quoted item in any of the three lists.
\<close>

definition is_string_list :: "json \<Rightarrow> bool" where
  "is_string_list j =
     (case j of
        JArray xs \<Rightarrow> list_all (\<lambda>x. case x of JString s \<Rightarrow> True | _ \<Rightarrow> False) xs
      | _ \<Rightarrow> False)"

definition keyword_record :: "json \<Rightarrow> bool" where
  "keyword_record r =
     (case r of
        JObject kvs \<Rightarrow>
          map fst kvs = [''subjects'', ''objects'', ''scene'']
          \<and> list_all (\<lambda>kv. is_string_list (snd kv)) kvs
          \<and> snd (kvs ! 2) \<noteq> JArray []
      | _ \<Rightarrow> False)"

definition quoted_items_of :: "pylib \<Rightarrow> findall_pattern \<Rightarrow> string \<Rightarrow> string list" where
  "quoted_items_of L p t =
     (if re_findall L p t \<noteq> [] then re_findall L Quoted_items (hd (re_findall L p t)) else [])"

definition no_recoverable_json :: "pylib \<Rightarrow> string \<Rightarrow> bool" where
  "no_recoverable_json L json_str =
     (case json_span json_str of
        None \<Rightarrow> True
      | Some braced \<Rightarrow>
          let t = re_sub L Collapse_whitespace braced;
              t' = basic_repairs L t
          in isl (json_loads L t) \<and> isl (json_loads L t')
             \<and> quoted_items_of L Subjects_list t' = []
             \<and> quoted_items_of L Objects_list t' = []
             \<and> quoted_items_of L Scene_list t' = [])"

definition parsed_by_library :: "pylib \<Rightarrow> string \<Rightarrow> json \<Rightarrow> bool" where
  "parsed_by_library L json_str result =
     (case json_span json_str of
        None \<Rightarrow> False
      | Some braced \<Rightarrow>
          let t = re_sub L Collapse_whitespace braced
          in json_loads L t = Inr result \<or> json_loads L (basic_repairs L t) = Inr result)"

section \<open>Facts about instance selection\<close>

lemma min_by_key_mem: "min_by_key f b xs \<in> set (b # xs)"
  by (induction xs arbitrary: b) auto

lemma min_by_key_hd_tl: "xs \<noteq> [] \<Longrightarrow> min_by_key f (hd xs) (tl xs) \<in> set xs"
  using min_by_key_mem[of f "hd xs" "tl xs"] by simp

lemma min_by_key_filter:
  "filter P xs \<noteq> [] \<Longrightarrow> min_by_key f (hd (filter P xs)) (tl (filter P xs)) \<in> set xs"
  using min_by_key_hd_tl[of "filter P xs" f] by auto

lemma hd_sort_key_reverse_mem:
  assumes "xs \<noteq> []"
  shows "hd (sort_key_reverse f xs) \<in> set xs"
proof -
  from assms have "length (sort_key_reverse f xs) \<noteq> 0"
    by (simp add: sort_key_reverse_def)
  then have "sort_key_reverse f xs \<noteq> []"
    by (simp del: length_0_conv)
  then have "hd (sort_key_reverse f xs) \<in> set (sort_key_reverse f xs)" by simp
  then show ?thesis by (simp add: sort_key_reverse_def)
qed

lemma hd_scores_mem:
  "xs \<noteq> [] \<Longrightarrow> fst (hd (sort_key_reverse snd (map (\<lambda>k. (k, g k)) xs))) \<in> set xs"
  using hd_sort_key_reverse_mem[of "map (\<lambda>k. (k, g k)) xs" snd] by auto

lemma available_lt: "k \<in> set (get_available_instances c) \<Longrightarrow> k < length (instances c)"
  by (auto simp: get_available_instances_def)

lemma instances_with_model_loop_filter:
  "instances_with_model_loop insts m ks acc =
     acc @ filter (\<lambda>k. models (insts ! k) = [] \<or> m \<in> set (models (insts ! k))) ks"
  by (induction ks arbitrary: acc) auto

lemma candidate_lt: "k \<in> set (candidate_instances m c) \<Longrightarrow> k < length (instances c)"
  by (auto simp: candidate_instances_def get_instance_for_model_def
       instances_with_model_loop_filter Let_def
       dest: available_lt split: option.splits if_splits)

lemma itu_subset: "set (instances_to_use m c) \<subseteq> set (candidate_instances m c)"
  by (auto simp: instances_to_use_def Let_def)

lemma itu_lt: "k \<in> set (instances_to_use m c) \<Longrightarrow> k < length (instances c)"
  using itu_subset candidate_lt by blast

lemma itu_empty_iff: "instances_to_use m c = [] \<longleftrightarrow> candidate_instances m c = []"
  by (auto simp: instances_to_use_def Let_def)

lemma distinct_available: "distinct (get_available_instances c)"
  by (simp add: get_available_instances_def)

lemma distinct_candidates: "distinct (candidate_instances m c)"
  by (auto simp: candidate_instances_def get_instance_for_model_def
       instances_with_model_loop_filter Let_def distinct_available split: option.splits)

lemma distinct_itu: "distinct (instances_to_use m c)"
  by (auto simp: instances_to_use_def Let_def distinct_candidates)

lemma select_instance_instances:
  "select_instance r m c = (res, c') \<Longrightarrow> instances c' = instances c
     \<and> load_balancing_strategy c' = load_balancing_strategy c
     \<and> max_concurrent_requests c' = max_concurrent_requests c
     \<and> current_instance_index c \<le> current_instance_index c'"
  by (auto simp: select_instance_def round_robin_pick_def Let_def split: if_splits)

lemma select_instance_mem:
  assumes "select_instance r m c = (Some k, c')"
  shows "k \<in> set (instances_to_use m c)"
proof -
  let ?itu = "instances_to_use m c"
  have ne: "?itu \<noteq> []" using assms
    by (auto simp: select_instance_def itu_empty_iff split: if_splits)
  have nth: "\<And>j. ?itu ! (j mod length ?itu) \<in> set ?itu" using ne by simp
  show ?thesis using assms nth min_by_key_hd_tl[OF ne] min_by_key_filter hd_scores_mem[OF ne]
    by (auto simp: select_instance_def round_robin_pick_def Let_def split: if_splits)
qed

lemma select_instance_lt:
  "select_instance r m c = (Some k, c') \<Longrightarrow> k < length (instances c)"
  using select_instance_mem itu_lt by blast

lemma candidate_cursor [simp]:
  "candidate_instances m (c\<lparr>current_instance_index := x\<rparr>) = candidate_instances m c"
  by (simp add: candidate_instances_def get_instance_for_model_def get_available_instances_def
       split: option.splits)

lemma itu_cursor [simp]:
  "instances_to_use m (c\<lparr>current_instance_index := x\<rparr>) = instances_to_use m c"
  by (simp add: instances_to_use_def)

lemma select_round_robin:
  assumes "load_balancing_strategy c = ''round_robin''" "instances_to_use m c \<noteq> []"
  shows "select_instance r m c =
    (Some (instances_to_use m c ! (current_instance_index c mod length (instances_to_use m c))),
     c\<lparr>current_instance_index := current_instance_index c + 1\<rparr>)"
  using assms by (simp add: select_instance_def round_robin_pick_def itu_empty_iff Let_def)

lemma select_many_round_robin:
  assumes "load_balancing_strategy c = ''round_robin''" "instances_to_use m c \<noteq> []"
  shows "select_many r m n c =
    (map (\<lambda>j. Some (instances_to_use m c !
                 ((current_instance_index c + j) mod length (instances_to_use m c)))) [0..<n],
     c\<lparr>current_instance_index := current_instance_index c + n\<rparr>)"
  using assms
proof (induction n arbitrary: c)
  case 0
  then show ?case by simp
next
  case (Suc n)
  let ?c1 = "c\<lparr>current_instance_index := current_instance_index c + 1\<rparr>"
  have s: "select_instance r m c =
    (Some (instances_to_use m c ! (current_instance_index c mod length (instances_to_use m c))),
     ?c1)"
    using Suc.prems by (rule select_round_robin)
  have ih: "select_many r m n ?c1 =
    (map (\<lambda>j. Some (instances_to_use m c !
                 ((current_instance_index c + 1 + j) mod length (instances_to_use m c)))) [0..<n],
     c\<lparr>current_instance_index := current_instance_index c + 1 + n\<rparr>)"
    using Suc.IH[of ?c1] Suc.prems by simp
  have m: "map (\<lambda>j. Some (instances_to_use m c !
                 ((current_instance_index c + j) mod length (instances_to_use m c)))) [0..<Suc n]
     = Some (instances_to_use m c ! (current_instance_index c mod length (instances_to_use m c)))
       # map (\<lambda>j. Some (instances_to_use m c !
                 ((current_instance_index c + 1 + j) mod length (instances_to_use m c)))) [0..<n]"
    by (simp only: upt_conv_Cons[OF zero_less_Suc] map_Suc_upt[symmetric] list.map map_map o_def)
       simp
  show ?case
    using ih unfolding m by (simp add: s)
qed

lemma rotate_as_map:
  "xs \<noteq> [] \<Longrightarrow>
     map (\<lambda>j. xs ! ((k + j) mod length xs)) [0..<length xs] = rotate (k mod length xs) xs"
  by (rule nth_equalityI) (simp_all add: nth_rotate mod_add_left_eq)

lemma mset_rotate1_list: "mset (rotate1 xs) = mset xs"
  by (cases xs) simp_all

lemma mset_rotate_list: "mset (rotate n xs) = mset xs"
  by (induction n) (simp_all add: mset_rotate1_list)

lemma itu_three: "instances_to_use None three_instances = [0, 1, 2]"
  by (simp add: three_instances_def instances_to_use_def candidate_instances_def
      get_available_instances_def new_client_def new_instance_def is_overloaded_def upt_rec)

section \<open>The admission gate and the active-request counter\<close>

text \<open>
  Claim C1.  The claim: for an instance with concurrency limit \<open>L\<close>, throughout every
  \<^verbatim>\<open>generate\<close> and \<^verbatim>\<open>chat\<close> call, also when the HTTP request raises a transport
  exception, \<open>active_requests\<close> stays between 0 and \<open>L\<close> and every acquire of the semaphore
  is matched by exactly one release.  The code does not keep it: when
  \<^verbatim>\<open>requests.post\<close> raises, the inner \<^verbatim>\<open>finally\<close> block decrements the counter and
  releases the semaphore, and the outer \<^verbatim>\<open>except\<close> handler then does both a second
  time.  On a fresh client with one instance (limit 3), one call of \<^verbatim>\<open>generate\<close>
  with \<open>max_retries = 1\<close> whose request raises returns \<open>None\<close> and leaves
  \<open>active_requests = -1\<close> and the semaphore counter at 4, so that four requests are then
  admitted at once.
\<close>

theorem generate_transport_exception_releases_twice:
  "(case generate always_transport_exception ''llava'' 1 (new_client [''http://localhost:11434'']) of
      (res, c', posts) \<Rightarrow>
         res = None \<and> posts = [0]
         \<and> active_requests (instances c' ! 0) = - 1
         \<and> semaphore_value (instances c' ! 0) = 4
         \<and> Option.bind (Option.bind (Option.bind (enter_request (instances c' ! 0))
               enter_request) enter_request) enter_request \<noteq> None)"
  by (simp add: generate_def new_client_def new_instance_def select_instance_def
      candidate_instances_def get_instance_for_model_def get_available_instances_def
      instances_to_use_def is_overloaded_def round_robin_pick_def attempt_def enter_request_def
      semaphore_acquire_def semaphore_release_def finally_block_def except_block_def
      update_stats_def always_transport_exception_def Let_def)

section \<open>The overload predicate\<close>

text \<open>
  Claim C3.  The claim: \<^verbatim>\<open>is_overloaded\<close> is true exactly when
  \<open>activeRequests \<ge> 0.8 \<times> concurrencyLimit\<close>, or more than five requests were made and the
  last latency exceeds ten seconds, or more than five requests were made and the failure
  ratio exceeds 0.3.  The code compares \<open>active_requests\<close> with 0.8 times the
  semaphore's current counter, which is the number of permits still free, although its
  comment speaks of 80 percent of the maximal capacity.  On an instance with limit 3 and
  two requests in flight the counter is 1: the code answers true, the claim false.
\<close>

theorem is_overloaded_reads_free_permits:
  "active_requests two_in_flight = 2 \<and> semaphore_value two_in_flight = 1
   \<and> is_overloaded two_in_flight \<and> \<not> is_overloaded_spec 3 two_in_flight"
  by (simp add: two_in_flight_def enter_request_def semaphore_acquire_def new_instance_def
        is_overloaded_def is_overloaded_spec_def)

text \<open>The code agrees with the specification's predicate once the limit is replaced by
  the semaphore's current counter.\<close>

lemma is_overloaded_current_counter:
  "is_overloaded i = is_overloaded_spec (semaphore_value i) i"
  by (auto simp: is_overloaded_def is_overloaded_spec_def mult.commute)

section \<open>The health score\<close>

text \<open>
  Claim C4, as stated: the score of an available instance is
  \<open>max(0, 100 - 40 (active/limit) - p_lat - p_rel)\<close> where, whenever at least one request
  was made, \<open>p_lat = min(30, avg/2)\<close> for every positive average latency.  It fails on
  the code: an instance that served one request in four seconds scores 100, not 98.
\<close>

theorem get_health_score_latency_counterexample:
  "is_available one_quick_request
   \<and> get_health_score one_quick_request = 100
   \<and> health_score_spec 3 one_quick_request = 98
   \<and> get_health_score one_quick_request \<noteq> health_score_spec 3 one_quick_request"
  by (simp add: one_quick_request_def get_health_score_def health_score_spec_def
      update_stats_def new_instance_def get_average_response_time_def Let_def)

text \<open>
  Claim C4, amended: for an available instance whose semaphore counter stands at a
  positive limit \<open>L\<close>, the score is \<open>max(0, 100 - 40 (active/L) - p_lat - p_rel)\<close>, where
  the latency penalty \<open>p_lat = min(30, avg/2)\<close> applies only when at least one request was
  made and the average latency exceeds ten seconds (and is 0 otherwise), and the
  reliability penalty is \<open>30 (failed/total)\<close> when at least one request was made (and 0
  otherwise).
\<close>

theorem get_health_score_formula:
  assumes "is_available i" and "semaphore_value i = L" and "0 < L"
  shows "get_health_score i =
     max 0 (100 - 40 * (real_of_int (active_requests i) / real_of_int L)
              - (if total_requests i > 0 \<and> get_average_response_time i > 10
                 then min 30 (get_average_response_time i / 2) else 0)
              - (if total_requests i > 0
                 then 30 * (real_of_int (failed_requests i) / real_of_int (total_requests i))
                 else 0))"
  using assms by (simp add: get_health_score_def Let_def mult.commute)

theorem get_health_score_formula_witness:
  "is_available one_slow_failure \<and> semaphore_value one_slow_failure = 3 \<and> (0::int) < 3
   \<and> get_health_score one_slow_failure = 58"
proof -
  have a: "is_available one_slow_failure"
    by (simp add: one_slow_failure_def update_stats_def new_instance_def)
  have s: "semaphore_value one_slow_failure = 3"
    by (simp add: one_slow_failure_def update_stats_def new_instance_def)
  have p: "(0::int) < 3" by simp
  show ?thesis
    using get_health_score_formula[OF a s p] a s
    by (simp add: one_slow_failure_def update_stats_def new_instance_def
        get_average_response_time_def)
qed

section \<open>Candidates for a model\<close>

text \<open>
  Claim C7, as stated: model-restricted selection returns exactly the available
  instances whose model list contains the model, and all available instances only when
  none of them lists it.  It fails on the code: with one instance listing \<open>llava\<close> and
  one with an empty model list, the code returns both, the claim only the first.
\<close>

theorem get_instance_for_model_counterexample:
  "get_instance_for_model two_instances ''llava'' = [0, 1]
   \<and> instances_serving_spec two_instances ''llava'' = [0]
   \<and> get_instance_for_model two_instances ''llava''
         \<noteq> instances_serving_spec two_instances ''llava''"
  by (simp add: two_instances_def get_instance_for_model_def instances_serving_spec_def
      get_available_instances_def new_client_def new_instance_def upt_rec)

text \<open>
  Claim C7, amended: model-restricted selection returns, in pool order, the available
  instances whose model list is empty or contains the model; when there is no such
  instance it returns all available instances.
\<close>

theorem get_instance_for_model_filter:
  "get_instance_for_model c m =
     (let available = get_available_instances c;
          serving = filter (\<lambda>k. models (instances c ! k) = []
                                \<or> m \<in> set (models (instances c ! k))) available
      in if serving = [] then available else serving)"
  by (simp add: get_instance_for_model_def instances_with_model_loop_filter Let_def)

theorem get_instance_for_model_filter_witness:
  "get_instance_for_model two_instances ''llava'' = [0, 1]
   \<and> get_available_instances two_instances = [0, 1]"
  using get_instance_for_model_filter[of two_instances "''llava''"]
  by (simp add: two_instances_def get_available_instances_def new_client_def new_instance_def
      upt_rec)

section \<open>Round-robin selection\<close>

text \<open>
  Claim C8.  With the strategy \<open>round_robin\<close> and a non-empty list of \<open>N\<close> instances to
  choose from (the available, non-overloaded candidates), \<open>N\<close> consecutive selections
  return that list rotated by the cursor: every instance exactly once.  The cursor
  advances by one per selection, is left alone by a change of strategy, and is never
  moved back by a selection under any strategy.
\<close>

theorem round_robin_visits_each_once:
  "(load_balancing_strategy c = ''round_robin'' \<longrightarrow> instances_to_use m c \<noteq> [] \<longrightarrow>
      (let itu = instances_to_use m c;
           N = length itu;
           (rs, c') = select_many r m N c
       in rs = map Some (rotate (current_instance_index c mod N) itu)
          \<and> mset rs = mset (map Some itu)
          \<and> distinct rs
          \<and> current_instance_index c' = current_instance_index c + N
          \<and> instances c' = instances c))
   \<and> current_instance_index (set_load_balancing_strategy s c) = current_instance_index c
   \<and> current_instance_index c \<le> current_instance_index (snd (select_instance r m c))"
proof (intro conjI impI)
  assume rr: "load_balancing_strategy c = ''round_robin''" and ne: "instances_to_use m c \<noteq> []"
  let ?itu = "instances_to_use m c"
  let ?N = "length ?itu"
  have sm: "select_many r m ?N c =
      (map Some (rotate (current_instance_index c mod ?N) ?itu),
       c\<lparr>current_instance_index := current_instance_index c + ?N\<rparr>)"
    unfolding select_many_round_robin[OF rr ne] rotate_as_map[OF ne, symmetric]
    by (simp add: o_def)
  have d: "distinct (map Some (rotate (current_instance_index c mod ?N) ?itu))"
    by (simp add: distinct_map distinct_itu)
  show "let itu = instances_to_use m c;
           N = length itu;
           (rs, c') = select_many r m N c
       in rs = map Some (rotate (current_instance_index c mod N) itu)
          \<and> mset rs = mset (map Some itu)
          \<and> distinct rs
          \<and> current_instance_index c' = current_instance_index c + N
          \<and> instances c' = instances c"
    using d by (simp add: Let_def sm mset_rotate_list)
next
  show "current_instance_index (set_load_balancing_strategy s c) = current_instance_index c"
    by (simp add: set_load_balancing_strategy_def)
next
  show "current_instance_index c \<le> current_instance_index (snd (select_instance r m c))"
    using select_instance_instances[of r m c] by (cases "select_instance r m c") simp
qed

theorem round_robin_visits_each_once_witness:
  "load_balancing_strategy three_instances = ''round_robin''
   \<and> instances_to_use None three_instances = [0, 1, 2]
   \<and> fst (select_many 0 None 3 three_instances) = [Some 1, Some 2, Some 0]
   \<and> current_instance_index (snd (select_many 0 None 3 three_instances)) = 10
   \<and> current_instance_index (set_load_balancing_strategy ''least_busy'' three_instances) = 7"
proof -
  have rr: "load_balancing_strategy three_instances = ''round_robin''"
    by (simp add: three_instances_def new_client_def)
  have c: "current_instance_index three_instances = 7"
    by (simp add: three_instances_def new_client_def)
  have r: "rotate (Suc 0) [0::nat, 1, 2] = [1, 2, 0]"
    by (simp add: rotate1.simps)
  obtain rs c' where sm: "select_many 0 None (Suc (Suc (Suc 0))) three_instances = (rs, c')"
    by (cases "select_many 0 None (Suc (Suc (Suc 0))) three_instances")
  have "rs = [Some 1, Some 2, Some 0] \<and> current_instance_index c' = 10
        \<and> current_instance_index (set_load_balancing_strategy ''least_busy'' three_instances) = 7"
    using round_robin_visits_each_once[of three_instances None 0 "''least_busy''"] rr
    by (simp add: itu_three c r sm del: select_many.simps)
  then show ?thesis
    by (simp add: rr itu_three sm numeral_3_eq_3 del: select_many.simps)
qed

section \<open>Retries when every request fails\<close>

lemma attempt_failed:
  assumes "http_failed (http e)" and "attempt e i = ((res, posted), i')"
  shows "res = None
     \<and> total_requests i' = total_requests i + (if posted then 1 else 0)
     \<and> failed_requests i' = failed_requests i + (if posted then 1 else 0)"
  using assms
  by (auto simp: attempt_def enter_request_def semaphore_acquire_def http_failed_def
      finally_block_def except_block_def semaphore_release_def update_stats_def Let_def
      split: if_splits http_result.splits option.splits)

lemma retry_loop_all_failed:
  assumes fail: "\<forall>r. http_failed (http (env r))"
  shows "retry_loop env model n r c posts = (res, c', posts') \<Longrightarrow>
     res = None
     \<and> length (instances c') = length (instances c)
     \<and> length posts' \<le> length posts + n
     \<and> (\<forall>k < length (instances c).
           total_requests (instances c' ! k) - total_requests (instances c ! k)
             = int (count_list posts' k) - int (count_list posts k)
         \<and> failed_requests (instances c' ! k) - failed_requests (instances c ! k)
             = int (count_list posts' k) - int (count_list posts k))"
proof (induction n arbitrary: r c posts)
  case 0
  then show ?case by simp
next
  case (Suc n)
  show ?case
  proof (cases "select_instance (rnd (env r)) (Some model) c")
    case (Pair sel c1)
    have ic1: "instances c1 = instances c"
      using select_instance_instances[OF Pair] by simp
    show ?thesis
    proof (cases sel)
      case None
      with Suc.prems Pair ic1 show ?thesis by simp
    next
      case (Some k)
      have klt: "k < length (instances c)"
        using select_instance_lt Pair Some by blast
      obtain res1 posted i' where att: "attempt (env r) (instances c1 ! k) = ((res1, posted), i')"
        by (metis prod.exhaust)
      have af: "res1 = None
         \<and> total_requests i' = total_requests (instances c ! k) + (if posted then 1 else 0)
         \<and> failed_requests i' = failed_requests (instances c ! k) + (if posted then 1 else 0)"
        using attempt_failed[OF _ att] fail ic1 by simp
      let ?c2 = "c1\<lparr>instances := (instances c1)[k := i']\<rparr>"
      let ?posts1 = "if posted then posts @ [k] else posts"
      have rec: "retry_loop env model n (Suc r) ?c2 ?posts1 = (res, c', posts')"
        using Suc.prems Pair Some att af by (simp add: Let_def)
      note ih = Suc.IH[OF rec]
      have len2: "length (instances ?c2) = length (instances c)" using ic1 by simp
      have cnt: "\<And>j. int (count_list ?posts1 j) = int (count_list posts j) + (if posted \<and> j = k then 1 else 0)"
        by simp
      have upd: "\<And>j. j < length (instances c) \<Longrightarrow>
          total_requests (instances ?c2 ! j) = total_requests (instances c ! j) + (if posted \<and> j = k then 1 else 0)
        \<and> failed_requests (instances ?c2 ! j) = failed_requests (instances c ! j) + (if posted \<and> j = k then 1 else 0)"
      proof -
        fix j assume "j < length (instances c)"
        then show "total_requests (instances ?c2 ! j) = total_requests (instances c ! j) + (if posted \<and> j = k then 1 else 0)
        \<and> failed_requests (instances ?c2 ! j) = failed_requests (instances c ! j) + (if posted \<and> j = k then 1 else 0)"
          using af ic1 by (cases "j = k") simp_all
      qed
      show ?thesis
      proof (intro conjI allI impI)
        show "res = None" using ih by simp
        show "length (instances c') = length (instances c)" using ih len2 by simp
        show "length posts' \<le> length posts + Suc n" using ih by (simp split: if_splits)
      next
        fix j assume j: "j < length (instances c)"
        then have j2: "j < length (instances ?c2)" using len2 by simp
        from ih j2 have
          t: "total_requests (instances c' ! j) - total_requests (instances ?c2 ! j)
             = int (count_list posts' j) - int (count_list ?posts1 j)"
          and f: "failed_requests (instances c' ! j) - failed_requests (instances ?c2 ! j)
             = int (count_list posts' j) - int (count_list ?posts1 j)"
          by blast+
        show "total_requests (instances c' ! j) - total_requests (instances c ! j)
             = int (count_list posts' j) - int (count_list posts j)"
          using t upd[OF j] cnt[of j] by (simp split: if_splits)
        show "failed_requests (instances c' ! j) - failed_requests (instances c ! j)
             = int (count_list posts' j) - int (count_list posts j)"
          using f upd[OF j] cnt[of j] by (simp split: if_splits)
      qed
    qed
  qed
qed


text \<open>
  Claim C5.  If every HTTP request that is attempted fails (a status other than 200 or a
  transport exception), \<^verbatim>\<open>generate\<close> sends at most \<open>max_retries\<close> requests and
  returns \<open>None\<close>; it does not raise.  Every instance's \<open>total_requests\<close> and
  \<open>failed_requests\<close> grow by the number of requests sent to it, so an instance that
  started from zeroed counters ends with \<open>failed_requests = total_requests\<close>.
\<close>

theorem generate_all_requests_fail:
  assumes "\<forall>r. http_failed (http (env r))"
  shows "case generate env model max_retries c of
           (res, c', posts) \<Rightarrow>
             res = None
             \<and> int (length posts) \<le> max 0 max_retries
             \<and> length (instances c') = length (instances c)
             \<and> (\<forall>k < length (instances c).
                   total_requests (instances c' ! k) - total_requests (instances c ! k)
                     = int (count_list posts k)
                 \<and> failed_requests (instances c' ! k) - failed_requests (instances c ! k)
                     = int (count_list posts k)
                 \<and> (total_requests (instances c ! k) = 0 \<and> failed_requests (instances c ! k) = 0
                      \<longrightarrow> failed_requests (instances c' ! k) = total_requests (instances c' ! k)))"
proof -
  obtain res c' posts where g: "generate env model max_retries c = (res, c', posts)"
    by (metis prod.exhaust)
  then have r: "retry_loop env model (nat max_retries) 0 c [] = (res, c', posts)"
    by (simp add: generate_def)
  note l = retry_loop_all_failed[OF assms r]
  have "res = None" using l by simp
  moreover have "int (length posts) \<le> max 0 max_retries"
  proof -
    from l have "length posts \<le> nat max_retries" by simp
    then show ?thesis by linarith
  qed
  moreover have "length (instances c') = length (instances c)" using l by simp
  moreover have "\<forall>k < length (instances c).
                   total_requests (instances c' ! k) - total_requests (instances c ! k)
                     = int (count_list posts k)
                 \<and> failed_requests (instances c' ! k) - failed_requests (instances c ! k)
                     = int (count_list posts k)
                 \<and> (total_requests (instances c ! k) = 0 \<and> failed_requests (instances c ! k) = 0
                      \<longrightarrow> failed_requests (instances c' ! k) = total_requests (instances c' ! k))"
  proof (intro allI impI)
    fix k assume "k < length (instances c)"
    with l have
      "total_requests (instances c' ! k) - total_requests (instances c ! k) = int (count_list posts k)"
      "failed_requests (instances c' ! k) - failed_requests (instances c ! k) = int (count_list posts k)"
      by simp_all
    then show "total_requests (instances c' ! k) - total_requests (instances c ! k)
                     = int (count_list posts k)
                 \<and> failed_requests (instances c' ! k) - failed_requests (instances c ! k)
                     = int (count_list posts k)
                 \<and> (total_requests (instances c ! k) = 0 \<and> failed_requests (instances c ! k) = 0
                      \<longrightarrow> failed_requests (instances c' ! k) = total_requests (instances c' ! k))"
      by auto
  qed
  ultimately show ?thesis by (simp add: g)
qed

lemma generate_500_eval:
  "generate always_http_500 ''llava'' 3 (new_client [''http://localhost:11434'']) =
     (None,
      (new_client [''http://localhost:11434''])
        \<lparr>instances := [(new_instance ''http://localhost:11434'' 3)
                         \<lparr>total_requests := 3, failed_requests := 3,
                          total_processing_time := 3, last_response_time := 1\<rparr>],
         current_instance_index := 3\<rparr>,
      [0, 0, 0])"
  by (simp add: generate_def new_client_def new_instance_def select_instance_def
      candidate_instances_def get_instance_for_model_def get_available_instances_def
      instances_to_use_def is_overloaded_def round_robin_pick_def attempt_def enter_request_def
      semaphore_acquire_def semaphore_release_def finally_block_def except_block_def
      update_stats_def always_http_500_def Let_def numeral_3_eq_3)

theorem generate_all_requests_fail_witness:
  "(\<forall>r. http_failed (http (always_http_500 r)))
   \<and> (case generate always_http_500 ''llava'' 3 (new_client [''http://localhost:11434'']) of
        (res, c', posts) \<Rightarrow>
           res = None \<and> posts = [0, 0, 0]
           \<and> total_requests (instances c' ! 0) = 3
           \<and> failed_requests (instances c' ! 0) = total_requests (instances c' ! 0))"
proof -
  have h: "\<forall>r. http_failed (http (always_http_500 r))"
    by (simp add: always_http_500_def http_failed_def)
  show ?thesis
    using generate_all_requests_fail[OF h, where model = "''llava''" and max_retries = 3
            and c = "new_client [''http://localhost:11434'']"] h
    by (simp add: generate_500_eval new_instance_def)
qed

section \<open>The batch loop under system load\<close>

text \<open>
  Claim C2.  The claim: when the CPU load is above 90 percent the scheduler skips the
  pass and sleeps without consuming any work item, so that every enumerated, non-cached
  file ends up processed, skipped or counted as failed.  The code slices the batch and
  advances \<open>batch_index\<close> before it samples the load, and \<^verbatim>\<open>continue\<close>s afterwards:
  the batch is never submitted.  (The pause check, placed before the slice, does not
  consume anything.)  With one image, an empty cache and a single pass at 95 percent
  load, the run ends normally with 0 processed, 0 skipped and 0 failed out of 1; at 20
  percent load the same run processes the image.
\<close>

theorem process_directory_drops_batch_under_load:
  "process_directory {} [''a.jpg''] [busy_pass] new_image_processor =
     Some (True, new_image_processor\<lparr>total_images := 1\<rparr>)
   \<and> process_directory {} [''a.jpg''] [quiet_pass] new_image_processor =
     Some (True, new_image_processor\<lparr>total_images := 1, processed_images := 1\<rparr>)"
  by (simp add: process_directory_def new_image_processor_def busy_pass_def quiet_pass_def
      is_in_cache_def batch_iteration_def current_batch_def Let_def)

section \<open>Adaptive batch size and pause\<close>

lemma collect_results_failures:
  "snd (collect_results oc xs p n) = n + int (length (filter (\<lambda>x. item_failed (oc x)) xs))"
  by (induction xs arbitrary: p n) (auto simp: item_failed_def Let_def split: item_outcome.splits)

lemma collect_results_positive:
  "(0 < snd (collect_results oc xs p 0)) = (\<exists>x \<in> set xs. item_failed (oc x))"
  by (simp add: collect_results_failures filter_empty_conv)

text \<open>
  Claim C6.  In every pass of the loop that is neither stopped nor paused, the batch
  taken from the remaining work list is the slice of
  \<open>max(1, batch_size - consecutive_failures)\<close> items starting at \<open>batch_index\<close>.  When
  the batch has been submitted and has drained: if at least one submitted item failed,
  \<open>consecutive_failures\<close> grows by one and the pause becomes \<open>min(60, pause \<times> 1.5)\<close>;
  otherwise \<open>consecutive_failures\<close> drops by one but not below 0 and the pause becomes
  \<open>max(pause_between_batches, pause \<times> 0.8)\<close>.
\<close>

theorem adaptive_batch_step:
  assumes "\<not> should_stop e" and "\<not> paused e"
    and "batch_iteration image_files e (p, v) = ((p', v'), brk)"
  shows "batch_index v' = batch_index v
            + length (take (nat (max 1 (batch_size p - consecutive_failures v)))
                        (drop (batch_index v) image_files))
     \<and> (system_load e \<le> 90 \<longrightarrow>
          ((\<exists>x \<in> set (submitted_items image_files e p v). item_failed (outcome e x)) \<longrightarrow>
             consecutive_failures v' = consecutive_failures v + 1
             \<and> adaptive_pause v' = min 60 (adaptive_pause v * (3 / 2))
             \<and> adaptive_pause v' \<le> 60)
        \<and> (\<not> (\<exists>x \<in> set (submitted_items image_files e p v). item_failed (outcome e x)) \<longrightarrow>
             consecutive_failures v' = max 0 (consecutive_failures v - 1)
             \<and> 0 \<le> consecutive_failures v'
             \<and> adaptive_pause v' = max (pause_between_batches p) (adaptive_pause v * (8 / 10))
             \<and> pause_between_batches p \<le> adaptive_pause v'))"
proof (intro conjI impI)
  show "batch_index v' = batch_index v
            + length (take (nat (max 1 (batch_size p - consecutive_failures v)))
                        (drop (batch_index v) image_files))"
    using assms
    by (auto simp: batch_iteration_def current_batch_def Let_def split: if_splits prod.splits)
next
  obtain futures in_flight where sb:
    "submit_batch (paused_at e) (current_batch image_files p v) (processing_images p) []
       = (futures, in_flight)"
    by (metis prod.exhaust)
  obtain p2 bf where cr:
    "collect_results (outcome e) futures (p\<lparr>processing_images := in_flight\<rparr>) 0 = (p2, bf)"
    by (metis prod.exhaust)
  have pos: "(0 < bf) = (\<exists>x \<in> set (submitted_items image_files e p v). item_failed (outcome e x))"
    using collect_results_positive[of "outcome e" futures "p\<lparr>processing_images := in_flight\<rparr>"]
      sb cr
    by (simp add: submitted_items_def)
  {
    assume l: "system_load e \<le> 90"
      and f: "\<exists>x \<in> set (submitted_items image_files e p v). item_failed (outcome e x)"
    from f pos have b: "0 < bf" by simp
    from b assms l sb cr
    have r: "consecutive_failures v' = consecutive_failures v + 1
           \<and> adaptive_pause v' = min 60 (adaptive_pause v * (3 / 2))"
      by (auto simp: batch_iteration_def Let_def)
    from r show "consecutive_failures v' = consecutive_failures v + 1" by simp
    from r show "adaptive_pause v' = min 60 (adaptive_pause v * (3 / 2))" by simp
    from r show "adaptive_pause v' \<le> 60" by simp
  }
  {
    assume l: "system_load e \<le> 90"
      and f: "\<not> (\<exists>x \<in> set (submitted_items image_files e p v). item_failed (outcome e x))"
    from f pos have b: "\<not> 0 < bf" by simp
    from b assms l sb cr
    have r: "consecutive_failures v' = max 0 (consecutive_failures v - 1)
           \<and> adaptive_pause v' = max (pause_between_batches p) (adaptive_pause v * (8 / 10))"
      by (auto simp: batch_iteration_def Let_def)
    from r show "consecutive_failures v' = max 0 (consecutive_failures v - 1)" by simp
    from r show "0 \<le> consecutive_failures v'" by simp
    from r show "adaptive_pause v' = max (pause_between_batches p) (adaptive_pause v * (8 / 10))"
      by simp
    from r show "pause_between_batches p \<le> adaptive_pause v'" by simp
  }
qed

lemma failing_pass_step:
  "batch_iteration six_images failing_pass (new_image_processor, after_two_failures) =
     ((new_image_processor\<lparr>processed_images := 2, failed_images := 1\<rparr>,
       \<lparr>batch_index = 3, consecutive_failures = 3, adaptive_pause = 60,
        stats_check_counter = 3\<rparr>), False)"
  by (auto simp: batch_iteration_def current_batch_def six_images_def failing_pass_def
      new_image_processor_def after_two_failures_def Let_def numeral_3_eq_3)

theorem adaptive_batch_step_witness:
  "\<not> should_stop failing_pass \<and> \<not> paused failing_pass \<and> system_load failing_pass \<le> 90
   \<and> (\<exists>x \<in> set (submitted_items six_images failing_pass new_image_processor after_two_failures).
         item_failed (outcome failing_pass x))
   \<and> fst (batch_iteration six_images failing_pass (new_image_processor, after_two_failures)) =
       (new_image_processor\<lparr>processed_images := 2, failed_images := 1\<rparr>,
        \<lparr>batch_index = 3, consecutive_failures = 3, adaptive_pause = 60,
         stats_check_counter = 3\<rparr>)"
proof -
  have s: "\<not> should_stop failing_pass" and z: "\<not> paused failing_pass"
    and l: "system_load failing_pass \<le> 90"
    by (simp_all add: failing_pass_def)
  have sub: "submitted_items six_images failing_pass new_image_processor after_two_failures
       = [''a.jpg'', ''b.jpg'', ''c.jpg'']"
    by (simp add: submitted_items_def current_batch_def six_images_def failing_pass_def
        new_image_processor_def after_two_failures_def numeral_3_eq_3)
  have f: "\<exists>x \<in> set (submitted_items six_images failing_pass new_image_processor
                       after_two_failures). item_failed (outcome failing_pass x)"
    unfolding sub by (simp add: failing_pass_def item_failed_def)
  show ?thesis
    using adaptive_batch_step[OF s z failing_pass_step] s z l f
    by (simp add: failing_pass_step)
qed

section \<open>Repair of the model's answer\<close>

lemma keyword_record_minimal: "keyword_record minimal_json"
  by (simp add: keyword_record_def minimal_json_def is_string_list_def)

lemma keyword_record_manual: "keyword_record (manual_extraction L t)"
  by (simp add: keyword_record_def manual_extraction_def is_string_list_def Let_def
      list_all_iff)

lemma manual_extraction_nothing:
  assumes "quoted_items_of L Subjects_list t = []" "quoted_items_of L Objects_list t = []"
    "quoted_items_of L Scene_list t = []"
  shows "manual_extraction L t = minimal_json"
  using assms
  by (auto simp: manual_extraction_def minimal_json_def quoted_items_of_def Let_def
      split: if_splits)

text \<open>
  Claim C9.  \<^verbatim>\<open>clean_and_repair_json\<close> is total: for every input string, and whatever
  the JSON parser and the regular expressions do, it returns a result and lets no
  exception reach the caller.  The result is what the parser returned for the braced
  part of the text (or for its repaired form), or else a keyword record; when the text
  holds no recoverable JSON it is the minimal placeholder with empty \<open>subjects\<close> and
  \<open>objects\<close> and the scene \<open>Description not available\<close>.
\<close>

theorem clean_and_repair_json_total:
  "\<exists>result. clean_and_repair_json L json_str = Inr result
      \<and> (parsed_by_library L json_str result \<or> keyword_record result)
      \<and> (no_recoverable_json L json_str \<longrightarrow> result = minimal_json)"
proof (cases "json_span json_str")
  case None
  then show ?thesis
    by (simp add: clean_and_repair_json_def clean_and_repair_json_body_def
        keyword_record_minimal)
next
  case (Some braced)
  let ?t = "re_sub L Collapse_whitespace braced"
  let ?t' = "basic_repairs L ?t"
  show ?thesis
  proof (cases "json_loads L ?t")
    case (Inr parsed)
    then show ?thesis using Some
      by (simp add: clean_and_repair_json_def clean_and_repair_json_body_def
          parsed_by_library_def no_recoverable_json_def Let_def)
  next
    case (Inl e)
    show ?thesis
    proof (cases "e = JSONDecodeError")
      case False
      then show ?thesis using Some Inl
        by (simp add: clean_and_repair_json_def clean_and_repair_json_body_def
            keyword_record_minimal Let_def)
    next
      case True
      show ?thesis
      proof (cases "json_loads L ?t'")
        case (Inr parsed)
        then show ?thesis using Some Inl True
          by (simp add: clean_and_repair_json_def clean_and_repair_json_body_def
              parsed_by_library_def no_recoverable_json_def Let_def)
      next
        case (Inl e2)
        note i2 = Inl
        show ?thesis
        proof (cases "e2 = JSONDecodeError")
          case False
          then show ?thesis using Some \<open>json_loads L ?t = Inl e\<close> True i2
            by (simp add: clean_and_repair_json_def clean_and_repair_json_body_def
                keyword_record_minimal Let_def)
        next
          case e2: True
          have r: "clean_and_repair_json L json_str = Inr (manual_extraction L ?t')"
            using Some \<open>json_loads L ?t = Inl e\<close> True i2 e2
            by (simp add: clean_and_repair_json_def clean_and_repair_json_body_def Let_def)
          have n: "no_recoverable_json L json_str \<longrightarrow> manual_extraction L ?t' = minimal_json"
            using Some by (simp add: no_recoverable_json_def Let_def manual_extraction_nothing)
          show ?thesis using r n keyword_record_manual by simp
        qed
      qed
    qed
  qed
qed

lemma span_broken: "json_span ''{\"subjects\": [cat}'' = Some ''{\"subjects\": [cat}''"
  by (simp add: json_span_def str_find_def str_rfind_def str_slice_def Let_def)


lemma no_recoverable_broken: "no_recoverable_json rejecting_lib ''{\"subjects\": [cat}''"
  by (simp add: no_recoverable_json_def span_broken rejecting_lib_def quoted_items_of_def
      basic_repairs_def Let_def)

theorem clean_and_repair_json_total_witness:
  "no_recoverable_json rejecting_lib ''{\"subjects\": [cat}''
   \<and> clean_and_repair_json rejecting_lib ''{\"subjects\": [cat}'' = Inr minimal_json"
  using clean_and_repair_json_total[of rejecting_lib "''{\"subjects\": [cat}''"]
    no_recoverable_broken
  by auto

section \<open>Keywords extracted from the answer\<close>

text \<open>
  Claim C10.  The claim: every keyword returned by \<^verbatim>\<open>extract_keywords_from_json\<close> is
  a stripped, non-empty string and appears once.  The code strips each keyword and then
  removes a leading \<open>1\<close> that is followed by a non-digit, without stripping again: for
  the parsed answer \<^verbatim>\<open>{"subjects": ["1 cat", "dog ", "dog"]}\<close> it returns the keyword
  \<open>cat\<close> with a leading space, which is not stripped.
\<close>

theorem extract_keywords_leading_space:
  "extract_keywords_from_json rejecting_lib one_cat_answer = (['' cat'', ''dog''], None)
   \<and> strip '' cat'' = ''cat''
   \<and> strip '' cat'' \<noteq> '' cat''"
  by (simp add: extract_keywords_from_json_def extract_keywords_body_def one_cat_answer_def
      categories_def category_keywords_def py_in_def py_getitem_def item_keywords_def
      scene_of_def clean_keywords_def clean_keyword_def strip_def is_space_def is_digit_def
      Let_def)

lemma strip_last: "strip s \<noteq> [] \<Longrightarrow> \<not> is_space (last (strip s))"
proof -
  assume a: "strip s \<noteq> []"
  let ?ys = "dropWhile is_space (rev (dropWhile is_space s))"
  from a have ne: "?ys \<noteq> []" by (simp add: strip_def)
  then have "\<not> is_space (hd ?ys)" by (rule hd_dropWhile)
  moreover have "last (strip s) = hd ?ys" using ne by (simp add: strip_def last_rev)
  ultimately show ?thesis by simp
qed

lemma clean_keyword_elem:
  assumes "k \<in> set (clean_keyword kw)"
  shows "k \<noteq> [] \<and> \<not> is_space (last k)"
proof -
  let ?s = "strip kw"
  from assms have ne: "?s \<noteq> []" by (auto simp: clean_keyword_def Let_def split: if_splits)
  have l: "\<not> is_space (last ?s)" using ne by (rule strip_last)
  from assms ne have "k = ?s \<or> (k = tl ?s \<and> length ?s > 1)"
    by (auto simp: clean_keyword_def Let_def split: if_splits)
  then show ?thesis
  proof
    assume "k = ?s" then show ?thesis using ne l by simp
  next
    assume t: "k = tl ?s \<and> length ?s > 1"
    then obtain a b bs where "?s = a # b # bs" by (cases ?s; cases "tl ?s") auto
    then show ?thesis using t l by auto
  qed
qed

text \<open>What the code does guarantee: the keywords are pairwise distinct, none is empty
  and none ends in white space.\<close>

lemma extract_keywords_distinct_nonempty:
  "distinct (fst (extract_keywords_from_json L d))
   \<and> (\<forall>k \<in> set (fst (extract_keywords_from_json L d)). k \<noteq> [] \<and> \<not> is_space (last k))"
proof (cases "extract_keywords_body L d")
  case (Inl e)
  then show ?thesis by (simp add: extract_keywords_from_json_def)
next
  case (Inr r)
  then obtain kws where "fst r = remdups (clean_keywords kws)"
    by (auto simp: extract_keywords_body_def Let_def split: sum.splits option.splits if_splits)
  then show ?thesis using Inr clean_keyword_elem
    by (auto simp: extract_keywords_from_json_def clean_keywords_def)
qed

end
